theory Spec2Isabelle
  imports Complex_Main
begin

section \<open>Energy consumption notebook: the data-shaping functions\<close>

text \<open>
  The development embeds the Python functions of
  \<^verbatim>\<open>Time_Series_Forecasting/Energy_Consumption_Exercise.ipynb\<close>:
  \<^verbatim>\<open>make_time_series\<close>, \<^verbatim>\<open>create_training_series\<close>, \<^verbatim>\<open>series_to_json_obj\<close>,
  \<^verbatim>\<open>write_json_dataset\<close>, \<^verbatim>\<open>json_predictor_input\<close>, \<^verbatim>\<open>decode_prediction\<close> and the
  daily resampling cell. Every exception the Python can raise is a value \<open>Inl e\<close> of the
  result; the library calls the notebook makes (pandas, json) are modelled by the functions
  of the subsections named after them.
\<close>

subsection \<open>Exceptions\<close>

datatype error =
    TypeError
  | KeyError
  | ValueError
  | OutOfBoundsDatetime
  | NotModelled

text \<open>
  \<open>NotModelled\<close> marks an input on which the library's behaviour is outside the model (a
  date string that is not of the form \<^verbatim>\<open>YYYY-MM-DD\<close>, a table built from something that is
  not a dictionary of lists). No theorem below says anything about such an input.
\<close>

subsection \<open>The calendar behind a daily \<^verbatim>\<open>DatetimeIndex\<close>\<close>

text \<open>
  A daily timestamp (time of day \<^verbatim>\<open>00:00:00\<close>) is the proleptic Gregorian ordinal of its
  day, as Python's \<^verbatim>\<open>date.toordinal\<close> counts it: day 1 is 0001-01-01.
\<close>

type_synonym timestamp = int

definition is_leap :: "nat \<Rightarrow> bool" where
  "is_leap y = (y mod 4 = 0 \<and> (y mod 100 \<noteq> 0 \<or> y mod 400 = 0))"

definition days_in_year :: "nat \<Rightarrow> nat" where
  "days_in_year y = (if is_leap y then 366 else 365)"

definition days_before_year :: "nat \<Rightarrow> int" where
  "days_before_year y =
     (let y1 = int y - 1 in y1 * 365 + y1 div 4 - y1 div 100 + y1 div 400)"

definition days_in_month :: "nat \<Rightarrow> nat \<Rightarrow> nat" where
  "days_in_month y m =
     (if m = 2 then (if is_leap y then 29 else 28)
      else if m = 4 \<or> m = 6 \<or> m = 9 \<or> m = 11 then 30
      else 31)"

definition days_before_month :: "nat \<Rightarrow> nat \<Rightarrow> nat" where
  "days_before_month y m = sum_list (map (days_in_month y) [1..<m])"

definition ymd_to_ord :: "nat \<Rightarrow> nat \<Rightarrow> nat \<Rightarrow> timestamp" where
  "ymd_to_ord y m d = days_before_year y + int (days_before_month y m) + int d"

text \<open>
  pandas stores a timestamp in 64-bit nanoseconds, so the midnights it can hold run from
  1677-09-22 to 2262-04-11; a date outside raises \<^verbatim>\<open>OutOfBoundsDatetime\<close>.
\<close>

definition in_timestamp_bounds :: "timestamp \<Rightarrow> bool" where
  "in_timestamp_bounds t = (ymd_to_ord 1677 9 22 \<le> t \<and> t \<le> ymd_to_ord 2262 4 11)"

definition digit_val :: "char \<Rightarrow> nat option" where
  "digit_val c =
     (let n = (of_char c :: nat) in if 48 \<le> n \<and> n \<le> 57 then Some (n - 48) else None)"

fun digits_val :: "string \<Rightarrow> nat option" where
  "digits_val [] = Some 0"
| "digits_val (c # cs) =
     (case digit_val c of
        None \<Rightarrow> None
      | Some d \<Rightarrow>
          (case digits_val cs of
             None \<Rightarrow> None
           | Some r \<Rightarrow> Some (d * 10 ^ length cs + r)))"

text \<open>
  \<open>parse_date\<close> is what pandas makes of the strings \<^verbatim>\<open>year + '-01-01'\<close> and
  \<^verbatim>\<open>year + '-12-31'\<close>: a string of the ISO form \<^verbatim>\<open>YYYY-MM-DD\<close> is that day when the day
  exists and is within the timestamp bounds. pandas hands any other string to a lenient
  parser, which the model does not follow.
\<close>

definition parse_date :: "string \<Rightarrow> error + timestamp" where
  "parse_date s =
     (if length s = 10 \<and> s ! 4 = CHR ''-'' \<and> s ! 7 = CHR ''-'' then
        (case (digits_val (take 4 s), digits_val (take 2 (drop 5 s)), digits_val (drop 8 s)) of
           (Some y, Some m, Some d) \<Rightarrow>
             if 1 \<le> m \<and> m \<le> 12 \<and> 1 \<le> d \<and> d \<le> days_in_month y m then
               (if in_timestamp_bounds (ymd_to_ord y m d) then Inr (ymd_to_ord y m d)
                else Inl OutOfBoundsDatetime)
             else Inl ValueError
         | _ \<Rightarrow> Inl NotModelled)
      else Inl NotModelled)"

text \<open>
  \<^verbatim>\<open>pd.DatetimeIndex(start=t_start, end=t_end, freq='D')\<close>: every day from the start to the
  end, both included. The notebook passes \<^verbatim>\<open>freq='D'\<close> at every call, and the model fixes
  it.
\<close>

definition DatetimeIndex :: "string \<Rightarrow> string \<Rightarrow> error + timestamp list" where
  "DatetimeIndex t_start t_end =
     (case parse_date t_start of
        Inl e \<Rightarrow> Inl e
      | Inr s \<Rightarrow>
          (case parse_date t_end of
             Inl e \<Rightarrow> Inl e
           | Inr e \<Rightarrow> Inr [s..e]))"

subsection \<open>pandas series\<close>

text \<open>
  A series is its rows in order: the label of a row (a daily timestamp) and its value,
  \<open>None\<close> for the missing marker NaN.
\<close>

type_synonym 'v series = "(timestamp \<times> 'v option) list"

text \<open>
  Python's \<^verbatim>\<open>xs[start:stop]\<close> on a sequence of \<open>n\<close> items: a negative bound counts from the
  end, and both bounds are clipped to the sequence. \<open>slice_positions\<close> lists the positions
  the slice reads.
\<close>

definition slice_bound :: "nat \<Rightarrow> int \<Rightarrow> nat" where
  "slice_bound n i = (if i < 0 then nat (max 0 (int n + i)) else min n (nat i))"

definition slice_positions :: "nat \<Rightarrow> int \<Rightarrow> int \<Rightarrow> nat list" where
  "slice_positions n start stop = [slice_bound n start ..< slice_bound n stop]"

definition py_slice :: "'a list \<Rightarrow> int \<Rightarrow> int \<Rightarrow> 'a list" where
  "py_slice xs start stop = map (\<lambda>p. xs ! p) (slice_positions (length xs) start stop)"

text \<open>
  \<^verbatim>\<open>pd.Series(data=data, index=index)\<close> with \<open>data\<close> itself a series does not pair values
  and labels by position: it is \<^verbatim>\<open>data.reindex(index)\<close>. The result has one row per label of
  \<open>index\<close>; its value is the value \<open>data\<close> has under that label, and NaN when \<open>data\<close> has no
  such label. When the labels already agree the series is returned as it is; otherwise
  pandas refuses to reindex a series in which a label occurs twice.
\<close>

definition lookup_rows :: "'v series \<Rightarrow> timestamp list \<Rightarrow> 'v series" where
  "lookup_rows data index =
     map (\<lambda>t. (t, case map_of data t of None \<Rightarrow> None | Some v \<Rightarrow> v)) index"

definition reindex :: "'v series \<Rightarrow> timestamp list \<Rightarrow> error + 'v series" where
  "reindex data index =
     (if map fst data = index then Inr data
      else if \<not> distinct (map fst data) then Inl ValueError
      else Inr (lookup_rows data index))"

definition Series :: "'v series \<Rightarrow> timestamp list \<Rightarrow> error + 'v series" where
  "Series data index = reindex data index"

subsection \<open>\<^verbatim>\<open>make_time_series\<close>\<close>

text \<open>
  \<^verbatim>\<open>
  def make_time_series(mean_power_df, years, freq='D', start_idx=16):
      time_series = []
      leap = '2008'
      for i in range(len(years)):
          year = years[i]
          if(year == leap):
              end_idx = start_idx+366
          else:
              end_idx = start_idx+365
          t_start = year + '-01-01'
          t_end = year + '-12-31'
          data = mean_power_df[start_idx:end_idx]
          index = pd.DatetimeIndex(start=t_start, end=t_end, freq=freq)
          time_series.append(pd.Series(data=data, index=index))
          start_idx = end_idx
      return time_series
  \<close>
  The loop is a recursion over the years still to do, with the loop's two variables
  \<open>start_idx\<close> and \<open>time_series\<close> as arguments.
\<close>

definition leap :: string where
  "leap = ''2008''"

definition year_end_idx :: "string \<Rightarrow> int \<Rightarrow> int" where
  "year_end_idx year start_idx = (if year = leap then start_idx + 366 else start_idx + 365)"

fun make_time_series_loop ::
  "'v series \<Rightarrow> string list \<Rightarrow> int \<Rightarrow> 'v series list \<Rightarrow> error + 'v series list" where
  "make_time_series_loop mean_power_df [] start_idx time_series = Inr time_series"
| "make_time_series_loop mean_power_df (year # years) start_idx time_series =
     (let end_idx = year_end_idx year start_idx;
          t_start = year @ ''-01-01'';
          t_end = year @ ''-12-31'';
          data = py_slice mean_power_df start_idx end_idx
      in case DatetimeIndex t_start t_end of
           Inl e \<Rightarrow> Inl e
         | Inr index \<Rightarrow>
             (case Series data index of
                Inl e \<Rightarrow> Inl e
              | Inr s \<Rightarrow> make_time_series_loop mean_power_df years end_idx (time_series @ [s])))"

definition make_time_series :: "'v series \<Rightarrow> string list \<Rightarrow> int \<Rightarrow> error + 'v series list" where
  "make_time_series mean_power_df years start_idx =
     make_time_series_loop mean_power_df years start_idx []"

text \<open>
  What the statements about \<open>make_time_series\<close> speak of. A year the notebook asks for
  is a string of four digits, \<^verbatim>\<open>'2007'\<close>; \<open>valid_year\<close> holds of those whose first and
  last day are both within the timestamp bounds. \<open>year_bounds\<close> lists the pairs
  \<open>(start_idx, end_idx)\<close> the loop goes through, one for each year, and \<open>year_index\<close> is
  the index of a year's series.
\<close>

definition year_num :: "string \<Rightarrow> nat" where
  "year_num year = (case digits_val year of None \<Rightarrow> 0 | Some n \<Rightarrow> n)"

definition valid_year :: "string \<Rightarrow> bool" where
  "valid_year year =
     (length year = 4 \<and> digits_val year \<noteq> None \<and> 1678 \<le> year_num year \<and> year_num year \<le> 2261)"

definition year_index :: "string \<Rightarrow> timestamp list" where
  "year_index year = [ymd_to_ord (year_num year) 1 1 .. ymd_to_ord (year_num year) 12 31]"

fun year_bounds :: "string list \<Rightarrow> int \<Rightarrow> (int \<times> int) list" where
  "year_bounds [] start_idx = []"
| "year_bounds (year # years) start_idx =
     (start_idx, year_end_idx year start_idx) # year_bounds years (year_end_idx year start_idx)"

text \<open>\<open>last_end_idx\<close> is the value of \<open>start_idx\<close> when the loop ends.\<close>

fun last_end_idx :: "string list \<Rightarrow> int \<Rightarrow> int" where
  "last_end_idx [] start_idx = start_idx"
| "last_end_idx (year # years) start_idx = last_end_idx years (year_end_idx year start_idx)"

subsection \<open>The two exercise functions\<close>

text \<open>
  \<^verbatim>\<open>
  def create_training_series(complete_time_series, prediction_length):
      '''Given a complete list of time series data, create training time series.
         :param complete_time_series: A list of all complete time series.
         :param prediction_length: The number of points we want to predict.
         :return: A list of training time series.
         '''
      # your code here
      pass
  \<close>
  The body is the statement \<^verbatim>\<open>pass\<close>, so a call returns Python's \<^verbatim>\<open>None\<close> whatever it is
  given: the result is an optional list of series, and it is \<open>None\<close>.
\<close>

definition create_training_series ::
  "'v series list \<Rightarrow> int \<Rightarrow> error + 'v series list option" where
  "create_training_series complete_time_series prediction_length = Inr None"

text \<open>
  The values \<^verbatim>\<open>json.dumps\<close> writes and \<^verbatim>\<open>json.loads\<close> reads: \<^verbatim>\<open>None\<close>, booleans,
  integers, floats, strings, lists, and dictionaries with string keys in insertion order.
  A float is a value of the type parameter; its arithmetic and its printed form are
  Python's and stay outside.
\<close>

datatype 'v json =
    JNull
  | JBool bool
  | JInt int
  | JFloat 'v
  | JStr string
  | JList "'v json list"
  | JDict "(string \<times> 'v json) list"

text \<open>
  \<^verbatim>\<open>
  def series_to_json_obj(ts):
      '''Returns a dictionary of values in DeepAR, JSON format.
         :param ts: A single time series.
         :return: A dictionary of values with "start" and "target" keys.
         '''
      # your code here
      pass
  \<close>
  Again the body is \<^verbatim>\<open>pass\<close>: the function returns \<^verbatim>\<open>None\<close>, the value \<open>JNull\<close>.
\<close>

definition series_to_json_obj :: "'v series \<Rightarrow> error + 'v json" where
  "series_to_json_obj ts = Inr JNull"

subsection \<open>\<^verbatim>\<open>json.dumps\<close> and \<^verbatim>\<open>str.encode\<close>\<close>

text \<open>
  \<^verbatim>\<open>json.dumps\<close> with its default arguments: the separators are \<^verbatim>\<open>', '\<close> and \<^verbatim>\<open>': '\<close>, and
  with \<^verbatim>\<open>ensure_ascii\<close> every character of a string outside the printable ASCII range is
  written as an escape. A character of the model is a code point below 256.
\<close>

definition digit_char :: "nat \<Rightarrow> char" where
  "digit_char n = ''0123456789abcdef'' ! n"

fun show_nat :: "nat \<Rightarrow> string" where
  "show_nat n = (if n < 10 then [digit_char n] else show_nat (n div 10) @ [digit_char (n mod 10)])"

declare show_nat.simps [simp del]

definition show_int :: "int \<Rightarrow> string" where
  "show_int i = (if i < 0 then CHR ''-'' # show_nat (nat (- i)) else show_nat (nat i))"

definition escape_char :: "char \<Rightarrow> string" where
  "escape_char c =
     (let n = (of_char c :: nat) in
      if n = 0x5C then [CHR 0x5C, CHR 0x5C]
      else if n = 0x22 then [CHR 0x5C, CHR 0x22]
      else if n = 0x08 then [CHR 0x5C, CHR ''b'']
      else if n = 0x0C then [CHR 0x5C, CHR ''f'']
      else if n = 0x0A then [CHR 0x5C, CHR ''n'']
      else if n = 0x0D then [CHR 0x5C, CHR ''r'']
      else if n = 0x09 then [CHR 0x5C, CHR ''t'']
      else if 0x20 \<le> n \<and> n \<le> 0x7E then [c]
      else [CHR 0x5C, CHR ''u'', CHR ''0'', CHR ''0'', digit_char (n div 16), digit_char (n mod 16)])"

definition encode_str :: "string \<Rightarrow> string" where
  "encode_str s = CHR 0x22 # concat (map escape_char s) @ [CHR 0x22]"

fun join :: "string \<Rightarrow> string list \<Rightarrow> string" where
  "join sep [] = []"
| "join sep [x] = x"
| "join sep (x # y # ys) = x @ sep @ join sep (y # ys)"

fun dumps :: "('v \<Rightarrow> string) \<Rightarrow> 'v json \<Rightarrow> string" where
  "dumps repr JNull = ''null''"
| "dumps repr (JBool b) = (if b then ''true'' else ''false'')"
| "dumps repr (JInt i) = show_int i"
| "dumps repr (JFloat x) = repr x"
| "dumps repr (JStr s) = encode_str s"
| "dumps repr (JList xs) = ''['' @ join '', '' (map (dumps repr) xs) @ '']''"
| "dumps repr (JDict kvs) =
     ''{'' @ join '', '' (map (\<lambda>kv. encode_str (fst kv) @ '': '' @ dumps repr (snd kv)) kvs) @ ''}''"

text \<open>\<^verbatim>\<open>s.encode('utf-8')\<close>: one byte for an ASCII character, two for the others.\<close>

definition utf8_char :: "char \<Rightarrow> string" where
  "utf8_char c =
     (let n = (of_char c :: nat) in
      if n < 128 then [c] else [char_of (192 + n div 64), char_of (128 + n mod 64)])"

definition encode_utf8 :: "string \<Rightarrow> string" where
  "encode_utf8 s = concat (map utf8_char s)"

subsection \<open>\<^verbatim>\<open>write_json_dataset\<close>\<close>

text \<open>
  \<^verbatim>\<open>
  def write_json_dataset(time_series, filename):
      with open(filename, 'wb') as f:
          for ts in time_series:
              json_line = json.dumps(series_to_json_obj(ts)) + '\n'
              json_line = json_line.encode('utf-8')
              f.write(json_line)
      print(filename + ' saved.')
  \<close>
  The world the function changes is the bytes of each file and the lines printed so far.
  Opening in mode \<^verbatim>\<open>'wb'\<close> empties the file; \<open>write_lines\<close> is the loop, with the bytes
  written so far as its state.
\<close>

record world =
  files :: "string \<Rightarrow> string option"
  stdout :: "string list"

fun write_lines :: "('v \<Rightarrow> string) \<Rightarrow> 'v series list \<Rightarrow> string \<Rightarrow> error + string" where
  "write_lines repr [] f = Inr f"
| "write_lines repr (ts # time_series) f =
     (case series_to_json_obj ts of
        Inl e \<Rightarrow> Inl e
      | Inr obj \<Rightarrow>
          (let json_line = dumps repr obj @ [CHR 0x0A];
               json_line = encode_utf8 json_line
           in write_lines repr time_series (f @ json_line)))"

definition write_json_dataset ::
  "('v \<Rightarrow> string) \<Rightarrow> 'v series list \<Rightarrow> string \<Rightarrow> world \<Rightarrow> error + world" where
  "write_json_dataset repr time_series filename w =
     (case write_lines repr time_series [] of
        Inl e \<Rightarrow> Inl e
      | Inr f \<Rightarrow>
          Inr (w\<lparr>files := (files w)(filename \<mapsto> f),
                 stdout := stdout w @ [filename @ '' saved.'']\<rparr>))"

subsection \<open>\<^verbatim>\<open>json_predictor_input\<close>\<close>

text \<open>
  \<^verbatim>\<open>
  def json_predictor_input(input_ts, num_samples=50, quantiles=['0.1', '0.5', '0.9']):
      instances = []
      for k in range(len(input_ts)):
          instances.append(series_to_json_obj(input_ts[k]))
      configuration = {"num_samples": num_samples,
                       "output_types": ["quantiles"],
                       "quantiles": quantiles}
      request_data = {"instances": instances,
                      "configuration": configuration}
      json_request = json.dumps(request_data).encode('utf-8')
      return json_request
  \<close>
\<close>

fun instances_loop :: "'v series list \<Rightarrow> 'v json list \<Rightarrow> error + 'v json list" where
  "instances_loop [] instances = Inr instances"
| "instances_loop (ts # input_ts) instances =
     (case series_to_json_obj ts of
        Inl e \<Rightarrow> Inl e
      | Inr obj \<Rightarrow> instances_loop input_ts (instances @ [obj]))"

definition request_data :: "'v json list \<Rightarrow> int \<Rightarrow> string list \<Rightarrow> 'v json" where
  "request_data instances num_samples quantiles =
     (let configuration =
            JDict [(''num_samples'', JInt num_samples),
                   (''output_types'', JList [JStr ''quantiles'']),
                   (''quantiles'', JList (map JStr quantiles))]
      in JDict [(''instances'', JList instances), (''configuration'', configuration)])"

definition json_predictor_input ::
  "('v \<Rightarrow> string) \<Rightarrow> 'v series list \<Rightarrow> int \<Rightarrow> string list \<Rightarrow> error + string" where
  "json_predictor_input repr input_ts num_samples quantiles =
     (case instances_loop input_ts [] of
        Inl e \<Rightarrow> Inl e
      | Inr instances \<Rightarrow>
          Inr (encode_utf8 (dumps repr (request_data instances num_samples quantiles))))"

subsection \<open>\<^verbatim>\<open>decode_prediction\<close>\<close>

text \<open>
  \<^verbatim>\<open>
  def decode_prediction(prediction, encoding='utf-8'):
      prediction_data = json.loads(prediction.decode(encoding))
      prediction_list = []
      for k in range(len(prediction_data['predictions'])):
          prediction_list.append(
              pd.DataFrame(data=prediction_data['predictions'][k]['quantiles']))
      return prediction_list
  \<close>
  \<open>subscript\<close> is \<^verbatim>\<open>obj[key]\<close> for a string key: only a dictionary has one.
  \<open>predictions_list\<close> is what \<^verbatim>\<open>range(len(obj))\<close> and \<^verbatim>\<open>obj[k]\<close> make of the value under
  \<^verbatim>\<open>'predictions'\<close>: the items of a list; nothing at all for an empty dictionary or string,
  whose loop does not run; an exception for everything else.
\<close>

definition subscript :: "'v json \<Rightarrow> string \<Rightarrow> error + 'v json" where
  "subscript obj key =
     (case obj of
        JDict kvs \<Rightarrow> (case map_of kvs key of None \<Rightarrow> Inl KeyError | Some v \<Rightarrow> Inr v)
      | _ \<Rightarrow> Inl TypeError)"

definition predictions_list :: "'v json \<Rightarrow> error + 'v json list" where
  "predictions_list obj =
     (case obj of
        JList xs \<Rightarrow> Inr xs
      | JDict kvs \<Rightarrow> if kvs = [] then Inr [] else Inl KeyError
      | JStr s \<Rightarrow> if s = [] then Inr [] else Inl TypeError
      | _ \<Rightarrow> Inl TypeError)"

text \<open>
  A table is its columns in order, each a label and the cells under it, and the number of
  its rows. \<^verbatim>\<open>pd.DataFrame(data=d)\<close> for a dictionary \<open>d\<close> of lists has one column per key, in
  the order of the keys, and as many rows as every list is long; lists of different lengths
  raise \<^verbatim>\<open>ValueError\<close>. Data of another shape is outside the model.
\<close>

record 'v dataframe =
  df_columns :: "(string \<times> 'v json list) list"
  df_nrows :: nat

fun column_lists :: "(string \<times> 'v json) list \<Rightarrow> (string \<times> 'v json list) list option" where
  "column_lists [] = Some []"
| "column_lists ((k, JList xs) # kvs) =
     (case column_lists kvs of None \<Rightarrow> None | Some cols \<Rightarrow> Some ((k, xs) # cols))"
| "column_lists ((k, _) # kvs) = None"

definition DataFrame :: "'v json \<Rightarrow> error + 'v dataframe" where
  "DataFrame data =
     (case data of
        JDict kvs \<Rightarrow>
          (case column_lists kvs of
             None \<Rightarrow> Inl NotModelled
           | Some [] \<Rightarrow> Inr \<lparr>df_columns = [], df_nrows = 0\<rparr>
           | Some ((k, xs) # cols) \<Rightarrow>
               if list_all (\<lambda>c. length (snd c) = length xs) cols
               then Inr \<lparr>df_columns = (k, xs) # cols, df_nrows = length xs\<rparr>
               else Inl ValueError)
      | _ \<Rightarrow> Inl NotModelled)"

text \<open>
  The loop of \<open>decode_prediction\<close>, and the function. The bytes of the response become
  Python values in \<^verbatim>\<open>json.loads(prediction.decode(encoding))\<close>; that step is the parameter
  \<open>loads\<close>.
\<close>

fun decode_loop :: "'v json list \<Rightarrow> 'v dataframe list \<Rightarrow> error + 'v dataframe list" where
  "decode_loop [] prediction_list = Inr prediction_list"
| "decode_loop (p # ps) prediction_list =
     (case subscript p ''quantiles'' of
        Inl e \<Rightarrow> Inl e
      | Inr q \<Rightarrow>
          (case DataFrame q of
             Inl e \<Rightarrow> Inl e
           | Inr t \<Rightarrow> decode_loop ps (prediction_list @ [t])))"

definition decode_prediction ::
  "(string \<Rightarrow> error + 'v json) \<Rightarrow> string \<Rightarrow> error + 'v dataframe list" where
  "decode_prediction loads prediction =
     (case loads prediction of
        Inl e \<Rightarrow> Inl e
      | Inr prediction_data \<Rightarrow>
          (case subscript prediction_data ''predictions'' of
             Inl e \<Rightarrow> Inl e
           | Inr predictions \<Rightarrow>
               (case predictions_list predictions of
                  Inl e \<Rightarrow> Inl e
                | Inr ps \<Rightarrow> decode_loop ps [])))"

text \<open>
  A response is well formed for the requested quantile labels and the prediction length
  when the dictionary under \<^verbatim>\<open>'quantiles'\<close> has exactly the requested labels as its keys and
  a list of \<open>prediction_length\<close> values under each.
\<close>

definition wellformed_quantiles :: "string list \<Rightarrow> nat \<Rightarrow> 'v json \<Rightarrow> bool" where
  "wellformed_quantiles quantiles prediction_length q =
     (case q of
        JDict kvs \<Rightarrow>
          distinct (map fst kvs) \<and> set (map fst kvs) = set quantiles \<and>
          list_all (\<lambda>kv. case snd kv of JList xs \<Rightarrow> length xs = prediction_length | _ \<Rightarrow> False) kvs
      | _ \<Rightarrow> False)"

text \<open>
  \<open>table_for\<close> says when a table is the table of one prediction: it has
  \<open>prediction_length\<close> rows, its column labels are the requested labels, each once, every
  column has \<open>prediction_length\<close> cells, and the columns, label by label and cell by cell,
  are the lists of the prediction's \<^verbatim>\<open>quantiles\<close>.
\<close>

definition table_for :: "string list \<Rightarrow> nat \<Rightarrow> 'v json \<Rightarrow> 'v dataframe \<Rightarrow> bool" where
  "table_for quantiles prediction_length p t =
     (df_nrows t = prediction_length \<and> distinct (map fst (df_columns t)) \<and>
      set (map fst (df_columns t)) = set quantiles \<and>
      list_all (\<lambda>c. length (snd c) = prediction_length) (df_columns t) \<and>
      subscript p ''quantiles'' = Inr (JDict (map (\<lambda>c. (fst c, JList (snd c))) (df_columns t))))"

subsection \<open>Daily resampling\<close>








section \<open>Properties\<close>

subsection \<open>The calendar and the index of a year\<close>

lemma days_before_month_1: "days_before_month y (Suc 0) = 0"
  by (simp add: days_before_month_def)

lemma days_before_month_12: "days_before_month y 12 = (if is_leap y then 335 else 334)"
proof -
  have "[1..<12] = [1,2,3,4,5,6,7,8,9,10,11::nat]" by (simp add: upt_rec)
  then show ?thesis by (simp add: days_before_month_def days_in_month_def)
qed

lemma year_span: "ymd_to_ord y 12 31 = ymd_to_ord y 1 1 + int (days_in_year y) - 1"
  by (simp add: ymd_to_ord_def days_before_month_1 days_before_month_12 days_in_year_def)

lemma days_before_year_Suc_le: "days_before_year a \<le> days_before_year (Suc a)"
  unfolding days_before_year_def Let_def
  by (simp add: zdiv_mono1 algebra_simps)

lemma days_before_year_mono: "a \<le> b \<Longrightarrow> days_before_year a \<le> days_before_year b"
  by (rule lift_Suc_mono_le [of days_before_year]) (simp_all add: days_before_year_Suc_le)

lemma jan1_in_bounds:
  assumes "1678 \<le> n" "n \<le> 2261"
  shows "in_timestamp_bounds (ymd_to_ord n 1 1)"
proof -
  have lo: "days_before_year 1678 \<le> days_before_year n"
    using assms by (intro days_before_year_mono)
  have hi: "days_before_year n \<le> days_before_year 2261"
    using assms by (intro days_before_year_mono)
  have c1: "days_before_year 1678 = 612512" by (simp add: days_before_year_def)
  have c2: "days_before_year 2261 = 825448" by (simp add: days_before_year_def)
  have b1: "ymd_to_ord 1677 9 22 = 612412" by code_simp
  have b2: "ymd_to_ord 2262 4 11 = 825914" by code_simp
  show ?thesis
    unfolding in_timestamp_bounds_def b1 b2
    using lo hi c1 c2 by (simp add: ymd_to_ord_def days_before_month_1)
qed

lemma dec31_in_bounds:
  assumes "1678 \<le> n" "n \<le> 2261"
  shows "in_timestamp_bounds (ymd_to_ord n 12 31)"
proof -
  have lo: "days_before_year 1678 \<le> days_before_year n"
    using assms by (intro days_before_year_mono)
  have hi: "days_before_year n \<le> days_before_year 2261"
    using assms by (intro days_before_year_mono)
  have c1: "days_before_year 1678 = 612512" by (simp add: days_before_year_def)
  have c2: "days_before_year 2261 = 825448" by (simp add: days_before_year_def)
  have b1: "ymd_to_ord 1677 9 22 = 612412" by code_simp
  have b2: "ymd_to_ord 2262 4 11 = 825914" by code_simp
  show ?thesis
    unfolding in_timestamp_bounds_def b1 b2
    using lo hi c1 c2 by (simp add: ymd_to_ord_def days_before_month_12)
qed

lemma parse_jan1:
  assumes "valid_year year"
  shows "parse_date (year @ ''-01-01'') = Inr (ymd_to_ord (year_num year) 1 1)"
proof -
  from assms obtain n where n: "digits_val year = Some n" "year_num year = n"
    and len: "length year = 4" and rng: "1678 \<le> n" "n \<le> 2261"
    by (auto simp: valid_year_def year_num_def)
  have b: "in_timestamp_bounds (ymd_to_ord n 1 1)" using rng by (rule jan1_in_bounds)
  show ?thesis
    using n len rng b
    by (simp add: parse_date_def nth_append digit_val_def days_in_month_def)
qed

lemma parse_dec31:
  assumes "valid_year year"
  shows "parse_date (year @ ''-12-31'') = Inr (ymd_to_ord (year_num year) 12 31)"
proof -
  from assms obtain n where n: "digits_val year = Some n" "year_num year = n"
    and len: "length year = 4" and rng: "1678 \<le> n" "n \<le> 2261"
    by (auto simp: valid_year_def year_num_def)
  have b: "in_timestamp_bounds (ymd_to_ord n 12 31)" using rng by (rule dec31_in_bounds)
  show ?thesis
    using n len rng b
    by (simp add: parse_date_def nth_append digit_val_def days_in_month_def)
qed

lemma DatetimeIndex_year:
  "valid_year year \<Longrightarrow> DatetimeIndex (year @ ''-01-01'') (year @ ''-12-31'') = Inr (year_index year)"
  by (simp add: DatetimeIndex_def parse_jan1 parse_dec31 year_index_def)

lemma length_year_index: "length (year_index year) = days_in_year (year_num year)"
  by (simp add: year_index_def year_span days_in_year_def)

lemma lookup_rows_same:
  "distinct (map fst data) \<Longrightarrow> lookup_rows data (map fst data) = data"
  unfolding lookup_rows_def
  by (induction data) (auto simp: rev_image_eqI intro!: map_idI)

lemma reindex_distinct:
  "distinct (map fst data) \<Longrightarrow> reindex data index = Inr (lookup_rows data index)"
  by (auto simp: reindex_def lookup_rows_same)

lemma slice_bound_le: "slice_bound n i \<le> n"
  by (auto simp: slice_bound_def)

lemma py_slice_take_drop:
  "py_slice xs a b = drop (slice_bound (length xs) a) (take (slice_bound (length xs) b) xs)"
proof (rule nth_equalityI)
  show "length (py_slice xs a b) =
        length (drop (slice_bound (length xs) a) (take (slice_bound (length xs) b) xs))"
    using slice_bound_le [of "length xs" b] by (simp add: py_slice_def slice_positions_def)
next
  fix i assume "i < length (py_slice xs a b)"
  then show "py_slice xs a b ! i =
             drop (slice_bound (length xs) a) (take (slice_bound (length xs) b) xs) ! i"
    using slice_bound_le [of "length xs" b]
    by (simp add: py_slice_def slice_positions_def)
qed

lemma distinct_py_slice:
  "distinct (map fst xs) \<Longrightarrow> distinct (map fst (py_slice xs a b))"
  by (simp add: py_slice_take_drop drop_map[symmetric] take_map[symmetric] del: drop_map take_map)

lemma make_time_series_loop_eq:
  assumes "\<forall>year\<in>set years. valid_year year" "distinct (map fst df)"
  shows "make_time_series_loop df years start_idx acc =
     Inr (acc @ map (\<lambda>(year, (a, b)). lookup_rows (py_slice df a b) (year_index year))
                  (zip years (year_bounds years start_idx)))"
  using assms(1)
proof (induction years arbitrary: start_idx acc)
  case Nil
  then show ?case by simp
next
  case (Cons year years)
  then show ?case
    by (simp add: DatetimeIndex_year Series_def reindex_distinct distinct_py_slice assms(2) Let_def)
qed

lemma length_year_bounds: "length (year_bounds years start_idx) = length years"
  by (induction years arbitrary: start_idx) simp_all

lemma year_end_idx_ge: "start_idx \<le> year_end_idx year start_idx"
  by (simp add: year_end_idx_def)

lemma last_end_idx_ge: "start_idx \<le> last_end_idx years start_idx"
proof (induction years arbitrary: start_idx)
  case Nil
  show ?case by simp
next
  case (Cons year years)
  have "start_idx \<le> year_end_idx year start_idx" by (rule year_end_idx_ge)
  also have "\<dots> \<le> last_end_idx years (year_end_idx year start_idx)" by (rule Cons.IH)
  finally show ?case by simp
qed

lemma slice_bound_mono: "0 \<le> a \<Longrightarrow> a \<le> b \<Longrightarrow> slice_bound n a \<le> slice_bound n b"
  by (auto simp: slice_bound_def min_def)

lemma upt_append_upt: "i \<le> j \<Longrightarrow> j \<le> k \<Longrightarrow> [i..<j] @ [j..<k] = [i..<k]"
  by (metis le_Suc_ex upt_add_eq_append)

lemma concat_year_positions:
  assumes "0 \<le> start_idx"
  shows "concat (map (\<lambda>(a, b). slice_positions n a b) (year_bounds years start_idx)) =
         slice_positions n start_idx (last_end_idx years start_idx)"
  using assms
proof (induction years arbitrary: start_idx)
  case Nil
  show ?case by (simp add: slice_positions_def)
next
  case (Cons year years)
  let ?e = "year_end_idx year start_idx"
  have e: "start_idx \<le> ?e" "0 \<le> ?e" using Cons.prems year_end_idx_ge [of start_idx year] by auto
  have l: "?e \<le> last_end_idx years ?e" by (rule last_end_idx_ge)
  have "concat (map (\<lambda>(a, b). slice_positions n a b) (year_bounds (year # years) start_idx)) =
        slice_positions n start_idx ?e @ slice_positions n ?e (last_end_idx years ?e)"
    using Cons.IH [OF e(2)] by simp
  also have "\<dots> = slice_positions n start_idx (last_end_idx years ?e)"
    unfolding slice_positions_def
    by (intro upt_append_upt slice_bound_mono Cons.prems e l)
  finally show ?case by simp
qed

lemma year_bounds_nth:
  "i < length years \<Longrightarrow>
     fst (year_bounds years start_idx ! i) =
       (if i = 0 then start_idx else snd (year_bounds years start_idx ! (i - 1))) \<and>
     snd (year_bounds years start_idx ! i) =
       year_end_idx (years ! i) (fst (year_bounds years start_idx ! i))"
proof (induction years arbitrary: start_idx i)
  case Nil
  then show ?case by simp
next
  case (Cons year years)
  show ?case
  proof (cases i)
    case 0
    then show ?thesis by simp
  next
    case (Suc j)
    with Cons.prems have j: "j < length years" by simp
    show ?thesis
      using Cons.IH [OF j, of "year_end_idx year start_idx"] Suc
      by (cases j) simp_all
  qed
qed

lemma length_py_slice_le: "a \<le> b \<Longrightarrow> length (py_slice xs a b) \<le> nat (b - a)"
  by (auto simp: py_slice_def slice_positions_def slice_bound_def min_def max_def)

lemma length_values_lookup_rows:
  assumes "distinct index"
  shows "length (filter (\<lambda>r. snd r \<noteq> None) (lookup_rows data index)) \<le> length data"
proof -
  let ?ts = "filter (\<lambda>t. (case map_of data t of None \<Rightarrow> None | Some v \<Rightarrow> v) \<noteq> None) index"
  have eq: "length (filter (\<lambda>r. snd r \<noteq> None) (lookup_rows data index)) = length ?ts"
    by (simp add: lookup_rows_def filter_map comp_def)
  have sub: "set ?ts \<subseteq> fst ` set data"
    by (auto split: option.splits dest: map_of_SomeD intro: rev_image_eqI)
  have "distinct ?ts" using assms by simp
  then have "length ?ts = card (set ?ts)" by (rule distinct_card [symmetric])
  also have "\<dots> \<le> card (fst ` set data)"
    using sub by (intro card_mono) simp_all
  also have "\<dots> \<le> card (set data)" by (rule card_image_le) simp
  also have "\<dots> \<le> length data" by (rule card_length)
  finally show ?thesis using eq by simp
qed

lemma year_width: "year_end_idx year start_idx - start_idx = (if year = ''2008'' then 366 else 365)"
  by (simp add: year_end_idx_def leap_def)

lemma map_of_const_rows:
  "map_of (map (\<lambda>t. (t, v)) xs) t = (if t \<in> set xs then Some v else None)"
  by (induction xs) auto

lemma lookup_rows_const_rows:
  "lookup_rows (map (\<lambda>t. (t, Some v)) xs) ts =
     map (\<lambda>t. (t, if t \<in> set xs then Some v else None)) ts"
  by (simp add: lookup_rows_def map_of_const_rows)

lemma short_slice_rows:
  assumes "a \<le> b"
  shows "lookup_rows (py_slice (map (\<lambda>t. (t, Some v)) [a..b]) 0 (b - a)) [a..b] =
         map (\<lambda>t. (t, Some v)) [a..b - 1] @ [(b, None)]"
proof -
  let ?f = "\<lambda>t::int. (t, Some v)"
  have split: "[a..b] = [a..b - 1] @ [b]" using assms by (rule upto_rec2)
  have len: "length [a..b - 1] = nat (b - a)" by simp
  have "py_slice (map ?f [a..b]) 0 (b - a) = take (nat (b - a)) (map ?f [a..b])"
    using assms by (simp add: py_slice_take_drop slice_bound_def)
  also have "\<dots> = map ?f [a..b - 1]"
    unfolding take_map by (subst split) (simp only: len [symmetric] take_append take_all diff_self_eq_0 take_0 append_Nil2 order_refl)
  finally have sl: "py_slice (map ?f [a..b]) 0 (b - a) = map ?f [a..b - 1]" .
  have "lookup_rows (map ?f [a..b - 1]) ([a..b - 1] @ [b]) = map ?f [a..b - 1] @ [(b, None)]"
    unfolding lookup_rows_const_rows by simp
  then show ?thesis unfolding sl using split by simp
qed

lemma py_slice_shorter:
  assumes "0 \<le> a" "0 \<le> k" "k \<le> m"
  shows "py_slice xs a (a + k) = take (nat k) (py_slice xs a (a + m))"
proof (rule nth_equalityI)
  show "length (py_slice xs a (a + k)) = length (take (nat k) (py_slice xs a (a + m)))"
    using assms by (auto simp: py_slice_def slice_positions_def slice_bound_def min_def nat_add_distrib)
next
  fix i assume "i < length (py_slice xs a (a + k))"
  then show "py_slice xs a (a + k) ! i = take (nat k) (py_slice xs a (a + m)) ! i"
    using assms by (auto simp: py_slice_def slice_positions_def slice_bound_def min_def nat_add_distrib)
qed

lemma take_upto_butlast: "j \<le> e \<Longrightarrow> take (nat (e - j)) [j..e] = [j..e - 1]"
proof -
  assume "j \<le> e"
  then have "[j..e] = [j..e - 1] @ [e]" by (rule upto_rec2)
  moreover have "length [j..e - 1] = nat (e - j)" by simp
  ultimately show ?thesis by (metis append_eq_conv_conj)
qed

lemma py_slice_whole: "py_slice xs 0 (int (length xs)) = xs"
  by (simp add: py_slice_def slice_positions_def slice_bound_def map_nth)

lemma lookup_rows_append:
  "lookup_rows data (xs @ ys) = lookup_rows data xs @ lookup_rows data ys"
  by (simp add: lookup_rows_def)

lemma lookup_rows_missing:
  "t \<notin> fst ` set data \<Longrightarrow> lookup_rows data [t] = [(t, None)]"
  using map_of_eq_None_iff [of data t] by (simp add: lookup_rows_def)

lemma year_num_2008: "year_num ''2008'' = 2008"
  by (simp add: year_num_def digit_val_def)

lemma aligned_year_rows:
  assumes d: "distinct (map fst df)"
      and a: "0 \<le> a"
      and al: "map fst (py_slice df a (a + int (days_in_year (year_num year)))) = year_index year"
  shows "lookup_rows (py_slice df a (year_end_idx year a)) (year_index year) =
           (if is_leap (year_num year) \<and> year \<noteq> ''2008''
            then py_slice df a (a + 365) @ [(ymd_to_ord (year_num year) 12 31, None)]
            else py_slice df a (a + int (days_in_year (year_num year))))"
proof (cases "is_leap (year_num year) \<and> year \<noteq> ''2008''")
  case False
  then have e: "year_end_idx year a = a + int (days_in_year (year_num year))"
    using year_num_2008 by (auto simp: year_end_idx_def leap_def days_in_year_def is_leap_def)
  have "lookup_rows (py_slice df a (a + int (days_in_year (year_num year))))
          (map fst (py_slice df a (a + int (days_in_year (year_num year))))) =
        py_slice df a (a + int (days_in_year (year_num year)))"
    by (rule lookup_rows_same) (rule distinct_py_slice [OF d])
  then show ?thesis using False e al by auto
next
  case True
  let ?Y = "year_num year"
  let ?j = "ymd_to_ord ?Y 1 1" and ?e = "ymd_to_ord ?Y 12 31"
  let ?S = "py_slice df a (a + 366)" and ?T = "py_slice df a (a + 365)"
  from True have n: "days_in_year ?Y = 366" by (simp add: days_in_year_def)
  from True have e: "year_end_idx year a = a + 365" by (simp add: year_end_idx_def leap_def)
  have span: "?e = ?j + 365" using n by (simp add: year_span)
  have S: "map fst ?S = [?j..?e]" using al n by (simp add: year_index_def)
  have split: "[?j..?e] = [?j..?e - 1] @ [?e]" using span by (intro upto_rec2) simp
  have len: "length [?j..?e - 1] = 365" using span by simp
  have T: "?T = take 365 ?S" using py_slice_shorter [of a 365 366 df] a by simp
  have "map fst ?T = take 365 [?j..?e]" unfolding T by (simp only: S [symmetric] take_map)
  also have "\<dots> = [?j..?e - 1]" using take_upto_butlast [of ?j ?e] span by simp
  finally have Tl: "map fst ?T = [?j..?e - 1]" .
  have dT: "distinct (map fst ?T)" by (rule distinct_py_slice [OF d])
  have notin: "?e \<notin> fst ` set ?T"
  proof -
    have "fst ` set ?T = set (map fst ?T)" by simp
    also have "\<dots> = set [?j..?e - 1]" unfolding Tl ..
    finally show ?thesis by simp
  qed
  have "year_index year = [?j..?e]" by (simp only: year_index_def)
  also have "\<dots> = [?j..?e - 1] @ [?e]" by (rule split)
  also have "\<dots> = map fst ?T @ [?e]" by (simp only: Tl)
  finally have yi: "year_index year = map fst ?T @ [?e]" .
  have "lookup_rows ?T (year_index year) = lookup_rows ?T (map fst ?T) @ lookup_rows ?T [?e]"
    by (simp only: yi lookup_rows_append)
  also have "\<dots> = ?T @ [(?e, None)]"
    using lookup_rows_same [OF dT] lookup_rows_missing [OF notin] by simp
  finally show ?thesis using True e by simp
qed

subsection \<open>\<^verbatim>\<open>make_time_series\<close>: the slices of the frame\<close>

text \<open>
  Claim C10. \<open>make_time_series\<close> reads the daily frame in slices that follow one another:
  the slice of a year runs from \<open>start_idx\<close> to \<open>end_idx\<close>, and \<open>end_idx\<close> is the
  \<open>start_idx\<close> of the next year. For years that pandas can parse, a frame whose labels are
  distinct and a start position that is not negative, the function returns one series per
  year, in the order of the years; series \<open>i\<close> is built from the slice of year \<open>i\<close>; the
  slice of the first year begins at the given \<open>start_idx\<close> and every later one where the
  one before ends; and the positions all the slices read, one after the other, are the
  positions of the single slice from the first \<open>start_idx\<close> to the last \<open>end_idx\<close>, each once.
\<close>

theorem make_time_series_contiguous_slices:
  assumes "\<forall>year\<in>set years. valid_year year"
      and "distinct (map fst mean_power_df)"
      and "0 \<le> start_idx"
  shows "\<exists>time_series.
           make_time_series mean_power_df years start_idx = Inr time_series \<and>
           length time_series = length years \<and>
           (\<forall>i<length years.
              time_series ! i =
                lookup_rows
                  (py_slice mean_power_df (fst (year_bounds years start_idx ! i))
                     (snd (year_bounds years start_idx ! i)))
                  (year_index (years ! i)) \<and>
              fst (year_bounds years start_idx ! i) =
                (if i = 0 then start_idx else snd (year_bounds years start_idx ! (i - 1))) \<and>
              snd (year_bounds years start_idx ! i) =
                year_end_idx (years ! i) (fst (year_bounds years start_idx ! i))) \<and>
           concat (map (\<lambda>(a, b). slice_positions (length mean_power_df) a b)
                     (year_bounds years start_idx)) =
             slice_positions (length mean_power_df) start_idx (last_end_idx years start_idx)"
proof -
  let ?bs = "year_bounds years start_idx"
  let ?tss = "map (\<lambda>(year, (a, b)). lookup_rows (py_slice mean_power_df a b) (year_index year))
                (zip years ?bs)"
  have run: "make_time_series mean_power_df years start_idx = Inr ?tss"
    unfolding make_time_series_def
    using make_time_series_loop_eq [OF assms(1,2), of start_idx "[]"] by simp
  have len: "length ?tss = length years"
    by (simp add: length_year_bounds)
  have rows: "?tss ! i =
      lookup_rows (py_slice mean_power_df (fst (?bs ! i)) (snd (?bs ! i))) (year_index (years ! i))"
    if "i < length years" for i
    using that by (simp add: length_year_bounds case_prod_beta)
  show ?thesis
    using run len rows year_bounds_nth [of _ years start_idx]
      concat_year_positions [OF assms(3), of "length mean_power_df" years]
    by (intro exI [of _ ?tss]) simp
qed

theorem make_time_series_contiguous_slices_witness:
  "\<exists>time_series.
     make_time_series [(733042, Some (1::int)), (733043, Some 2)] [''2008'', ''2009''] 0 =
       Inr time_series \<and>
     length time_series = 2 \<and>
     year_bounds [''2008'', ''2009''] 0 = [(0, 366), (366, 731)] \<and>
     concat (map (\<lambda>(a, b). slice_positions (length [(733042::int, Some (1::int)), (733043, Some 2)]) a b)
               (year_bounds [''2008'', ''2009''] 0)) = [0, 1]"
proof -
  have v: "\<forall>year\<in>set [''2008'', ''2009'']. valid_year year"
    by (simp add: valid_year_def year_num_def digit_val_def)
  have d: "distinct (map fst [(733042::int, Some (1::int)), (733043, Some 2)])"
    by simp
  have b: "year_bounds [''2008'', ''2009''] 0 = [(0, 366), (366, 731)]"
    by (simp add: year_end_idx_def leap_def)
  have p: "slice_positions (length [(733042::int, Some (1::int)), (733043, Some 2)]) 0
             (last_end_idx [''2008'', ''2009''] 0) = [0, 1]"
    by (simp add: slice_positions_def slice_bound_def year_end_idx_def leap_def upt_rec)
  from make_time_series_contiguous_slices [OF v d order_refl]
  show ?thesis unfolding p b by auto
qed

subsection \<open>\<^verbatim>\<open>make_time_series\<close>: the size of a year\<close>

text \<open>
  Claim C2, as the code has it. The series of year \<open>i\<close> is the slice of the frame from
  \<open>start_idx\<close> to \<open>end_idx\<close> of that year, reindexed to the date range of the year. So it
  has one row for every calendar day of the year, from January 1 to December 31: 366 rows
  in a Gregorian leap year and 365 otherwise. The slice that fills it is 366 positions wide
  for the year string \<^verbatim>\<open>'2008'\<close> and 365 for every other year, so at most that many rows
  hold a value. When the frame, from the \<open>start_idx\<close> of the year on, holds the days of the
  year one after the other, the series of a common year and of 2008 is that part of the
  frame, every day with its value; the series of any other leap year is the first 365 days
  of it, and its row for December 31 holds NaN.
\<close>

theorem make_time_series_year_sizes:
  assumes "\<forall>year\<in>set years. valid_year year"
      and "distinct (map fst mean_power_df)"
      and "i < length years"
  shows "\<exists>time_series.
           make_time_series mean_power_df years start_idx = Inr time_series \<and>
           length time_series = length years \<and>
           time_series ! i =
             lookup_rows
               (py_slice mean_power_df (fst (year_bounds years start_idx ! i))
                  (snd (year_bounds years start_idx ! i)))
               (year_index (years ! i)) \<and>
           map fst (time_series ! i) =
             [ymd_to_ord (year_num (years ! i)) 1 1 .. ymd_to_ord (year_num (years ! i)) 12 31] \<and>
           length (time_series ! i) = (if is_leap (year_num (years ! i)) then 366 else 365) \<and>
           snd (year_bounds years start_idx ! i) - fst (year_bounds years start_idx ! i) =
             (if years ! i = ''2008'' then 366 else 365) \<and>
           length (filter (\<lambda>r. snd r \<noteq> None) (time_series ! i)) \<le>
             (if years ! i = ''2008'' then 366 else 365) \<and>
           (0 \<le> fst (year_bounds years start_idx ! i) \<and>
            map fst
              (py_slice mean_power_df (fst (year_bounds years start_idx ! i))
                 (fst (year_bounds years start_idx ! i) +
                  int (days_in_year (year_num (years ! i))))) =
              [ymd_to_ord (year_num (years ! i)) 1 1 .. ymd_to_ord (year_num (years ! i)) 12 31] \<longrightarrow>
            time_series ! i =
              (if is_leap (year_num (years ! i)) \<and> years ! i \<noteq> ''2008''
               then py_slice mean_power_df (fst (year_bounds years start_idx ! i))
                      (fst (year_bounds years start_idx ! i) + 365) @
                    [(ymd_to_ord (year_num (years ! i)) 12 31, None)]
               else py_slice mean_power_df (fst (year_bounds years start_idx ! i))
                      (fst (year_bounds years start_idx ! i) +
                       int (days_in_year (year_num (years ! i))))))"
proof -
  let ?bs = "year_bounds years start_idx"
  let ?a = "fst (?bs ! i)" and ?b = "snd (?bs ! i)"
  let ?Y = "year_num (years ! i)"
  let ?tss = "map (\<lambda>(year, (a, b)). lookup_rows (py_slice mean_power_df a b) (year_index year))
                (zip years ?bs)"
  have run: "make_time_series mean_power_df years start_idx = Inr ?tss"
    unfolding make_time_series_def
    using make_time_series_loop_eq [OF assms(1,2), of start_idx "[]"] by simp
  have n: "length ?tss = length years"
    by (simp add: length_year_bounds)
  have row: "?tss ! i = lookup_rows (py_slice mean_power_df ?a ?b) (year_index (years ! i))"
    using assms(3) by (simp add: length_year_bounds case_prod_beta)
  have labels: "map fst (?tss ! i) = year_index (years ! i)"
    unfolding row by (simp add: lookup_rows_def comp_def)
  have len: "length (?tss ! i) = days_in_year ?Y"
    unfolding row by (simp add: lookup_rows_def length_year_index)
  have b: "?b = year_end_idx (years ! i) ?a"
    using year_bounds_nth [OF assms(3), of start_idx] by simp
  have width: "?b - ?a = (if years ! i = ''2008'' then 366 else 365)"
    unfolding b by (rule year_width)
  have "length (filter (\<lambda>r. snd r \<noteq> None) (?tss ! i)) \<le> length (py_slice mean_power_df ?a ?b)"
    unfolding row by (rule length_values_lookup_rows) (simp add: year_index_def)
  also have "\<dots> \<le> nat (?b - ?a)"
    using width by (intro length_py_slice_le) (simp split: if_splits)
  finally have vals: "length (filter (\<lambda>r. snd r \<noteq> None) (?tss ! i)) \<le>
      (if years ! i = ''2008'' then 366 else 365)"
    using width by (simp split: if_splits)
  have aligned: "?tss ! i =
      (if is_leap ?Y \<and> years ! i \<noteq> ''2008''
       then py_slice mean_power_df ?a (?a + 365) @ [(ymd_to_ord ?Y 12 31, None)]
       else py_slice mean_power_df ?a (?a + int (days_in_year ?Y)))"
    if "0 \<le> ?a" and "map fst (py_slice mean_power_df ?a (?a + int (days_in_year ?Y))) =
        [ymd_to_ord ?Y 1 1 .. ymd_to_ord ?Y 12 31]"
    unfolding row b
    using that by (intro aligned_year_rows assms(2)) (simp_all add: year_index_def)
  show ?thesis
    using run n row labels len width vals aligned
    by (intro exI [of _ ?tss]) (simp add: year_index_def days_in_year_def)
qed

text \<open>
  The theorem at the frame that holds a value for each of the 366 days of 2008: the
  series of \<^verbatim>\<open>'2008'\<close> is the frame.
\<close>

theorem make_time_series_year_sizes_witness:
  "make_time_series
     (map (\<lambda>t. (t, Some (1::int))) [ymd_to_ord 2008 1 1 .. ymd_to_ord 2008 12 31]) [''2008''] 0 =
   Inr [map (\<lambda>t. (t, Some 1)) [ymd_to_ord 2008 1 1 .. ymd_to_ord 2008 12 31]]"
proof -
  define a where "a = ymd_to_ord 2008 1 1"
  define b where "b = ymd_to_ord 2008 12 31"
  let ?f = "\<lambda>t::int. (t, Some (1::int))"
  let ?df = "map ?f [a..b]"
  have lp: "is_leap 2008" by (simp add: is_leap_def)
  have ba: "b - a = 365"
    unfolding a_def b_def using lp by (simp add: year_span days_in_year_def)
  have len: "int (length ?df) = 366" using ba by simp
  have v: "\<forall>year\<in>set [''2008'']. valid_year year"
    by (simp add: valid_year_def year_num_2008 digit_val_def)
  have d: "distinct (map fst ?df)" by (simp add: comp_def)
  have i: "(0::nat) < length [''2008'']" by simp
  have yb: "year_bounds [''2008''] 0 ! 0 = (0, 366)"
    by (simp add: year_end_idx_def leap_def)
  have whole: "py_slice ?df 0 366 = ?df"
    using py_slice_whole [of ?df] len by simp
  have al: "map fst (py_slice ?df 0 (0 + int (days_in_year 2008))) = [a..b]"
    using lp whole by (simp add: days_in_year_def comp_def)
  from make_time_series_year_sizes [OF v d i, of 0]
  obtain ts where run: "make_time_series ?df [''2008''] 0 = Inr ts"
    and n: "length ts = 1"
    and rows: "ts ! 0 = py_slice ?df 0 (0 + int (days_in_year 2008))"
    unfolding yb using al lp
    by (auto simp: year_num_2008 a_def b_def)
  from n rows have "ts = [?df]"
    using whole lp by (cases ts) (simp_all add: days_in_year_def)
  with run show ?thesis unfolding a_def b_def by simp
qed

text \<open>
  Claim C2 as the specification states it, with a daily point being a day that has its
  value, fails for a leap year other than 2008. The frame below has a value for each of the
  366 days of 2012 and the series starts at its first row; the slice is 365 positions wide,
  so the series has 365 values and none on December 31.
\<close>

theorem make_time_series_2012_counterexample:
  "is_leap 2012 \<and>
   make_time_series
     (map (\<lambda>t. (t, Some (1::int))) [ymd_to_ord 2012 1 1 .. ymd_to_ord 2012 12 31]) [''2012''] 0 =
   Inr [map (\<lambda>t. (t, Some 1)) [ymd_to_ord 2012 1 1 .. ymd_to_ord 2012 12 30] @
        [(ymd_to_ord 2012 12 31, None)]] \<and>
   length (filter (\<lambda>r. snd r \<noteq> None)
     (map (\<lambda>t. (t, Some (1::int))) [ymd_to_ord 2012 1 1 .. ymd_to_ord 2012 12 31])) = 366 \<and>
   length (filter (\<lambda>r. snd r \<noteq> None)
     (map (\<lambda>t. (t, Some (1::int))) [ymd_to_ord 2012 1 1 .. ymd_to_ord 2012 12 30] @
        [(ymd_to_ord 2012 12 31, None)])) = 365"
proof -
  define a where "a = ymd_to_ord 2012 1 1"
  define b where "b = ymd_to_ord 2012 12 31"
  let ?f = "\<lambda>t::int. (t, Some (1::int))"
  have ba: "b - a = 365"
    unfolding a_def b_def by (simp add: year_span days_in_year_def is_leap_def)
  have b1: "ymd_to_ord 2012 12 30 = b - 1"
    unfolding b_def by (simp add: ymd_to_ord_def)
  have lp: "is_leap 2012" by (simp add: is_leap_def)
  have yn: "year_num ''2012'' = 2012" by (simp add: year_num_def digit_val_def)
  have v: "\<forall>year\<in>set [''2012'']. valid_year year"
    by (simp add: valid_year_def yn digit_val_def)
  have d: "distinct (map fst (map ?f [a..b]))" by (simp add: comp_def)
  have idx: "year_index ''2012'' = [a..b]"
    unfolding year_index_def yn a_def b_def ..
  have "make_time_series (map ?f [a..b]) [''2012''] 0 =
          Inr [lookup_rows (py_slice (map ?f [a..b]) 0 (b - a)) [a..b]]"
    unfolding make_time_series_def
    using make_time_series_loop_eq [OF v d, of 0 "[]"]
    by (simp add: year_end_idx_def leap_def idx ba)
  also have "lookup_rows (py_slice (map ?f [a..b]) 0 (b - a)) [a..b] =
          map ?f [a..b - 1] @ [(b, None)]"
    using ba by (intro short_slice_rows) simp
  finally have run: "make_time_series (map ?f [a..b]) [''2012''] 0 =
      Inr [map ?f [a..b - 1] @ [(b, None)]]" .
  have c1: "length (filter (\<lambda>r. snd r \<noteq> None) (map ?f [a..b])) = 366"
    using ba by (simp add: filter_map comp_def)
  have c2: "length (filter (\<lambda>r. snd r \<noteq> None) (map ?f [a..b - 1] @ [(b, None)])) = 365"
    using ba by (simp add: filter_map comp_def)
  show ?thesis
    using lp run c1 c2 unfolding b1 a_def [symmetric] b_def [symmetric] by simp
qed

subsection \<open>\<^verbatim>\<open>create_training_series\<close>\<close>

text \<open>
  Claim C1 says that the training series are the full series without their last
  \<open>prediction_length\<close> points. The function in the notebook has no body but \<^verbatim>\<open>pass\<close>: for
  a series of three points and a prediction length of 1 it returns \<^verbatim>\<open>None\<close>, not the list
  holding the first two points.
\<close>

theorem create_training_series_returns_None:
  "create_training_series
     [[(733042, Some (1::int)), (733043, Some 2), (733044, Some 3)]] 1 = Inr None \<and>
   create_training_series
     [[(733042, Some (1::int)), (733043, Some 2), (733044, Some 3)]] 1 \<noteq>
     Inr (Some [[(733042, Some 1), (733043, Some 2)]])"
  by (simp add: create_training_series_def)

text \<open>
  Claim C5, as the code has it: \<open>create_training_series\<close> checks nothing about the lengths
  of the series, and no call of it raises an exception.
\<close>

theorem create_training_series_never_raises:
  "\<not> isl (create_training_series complete_time_series prediction_length)"
  by (simp add: create_training_series_def)

text \<open>
  Claim C5 as the specification states it asks for an exception when a series is shorter
  than the prediction length. A series of one point and a prediction length of 30 raise
  none.
\<close>

theorem create_training_series_short_counterexample:
  "int (length [(733042::int, Some (1::int))]) < 30 \<and>
   \<not> isl (create_training_series [[(733042, Some (1::int))]] 30)"
  by (simp add: create_training_series_def)

subsection \<open>\<^verbatim>\<open>series_to_json_obj\<close>\<close>

text \<open>
  Claim C3 says that the record of a series holds its first timestamp under \<^verbatim>\<open>start\<close> and
  its values under \<^verbatim>\<open>target\<close>. The function in the notebook has no body but \<^verbatim>\<open>pass\<close>: for the
  series that starts on 2007-01-01 with the values 2.54 and 6.3 it returns \<^verbatim>\<open>None\<close>.
\<close>

theorem series_to_json_obj_returns_None:
  "series_to_json_obj [(732677, Some (254 / 100 :: rat)), (732678, Some (63 / 10))] = Inr JNull"
  by (simp add: series_to_json_obj_def)

text \<open>
  Claim C6 says that the start and the values of a series can be read back from its
  record. The record of the same series is \<^verbatim>\<open>None\<close>; it is written as \<^verbatim>\<open>null\<close>, and reading
  \<^verbatim>\<open>start\<close> or \<^verbatim>\<open>target\<close> from it raises \<^verbatim>\<open>TypeError\<close>.
\<close>

theorem series_to_json_obj_no_round_trip:
  "series_to_json_obj [(732677, Some (254 / 100 :: rat)), (732678, Some (63 / 10))] = Inr JNull \<and>
   dumps repr (JNull :: rat json) = ''null'' \<and>
   subscript (JNull :: rat json) ''start'' = Inl TypeError \<and>
   subscript (JNull :: rat json) ''target'' = Inl TypeError"
  by (simp add: series_to_json_obj_def subscript_def)

subsection \<open>\<^verbatim>\<open>write_json_dataset\<close>\<close>

text \<open>Encoding leaves a string of ASCII characters as it is.\<close>

lemma utf8_char_ascii: "(of_char c :: nat) < 128 \<Longrightarrow> utf8_char c = [c]"
  by (simp add: utf8_char_def)

lemma encode_utf8_ascii: "\<forall>c\<in>set s. (of_char c :: nat) < 128 \<Longrightarrow> encode_utf8 s = s"
  by (induction s) (simp_all add: encode_utf8_def utf8_char_ascii)

lemma null_line: "encode_utf8 (dumps repr JNull @ [CHR 0x0A]) = ''null'' @ [CHR 0x0A]"
  by (simp add: encode_utf8_def utf8_char_def)

text \<open>
  The loop itself writes one line for each series, in the order of the list, and ends each
  with a newline; what the line holds is what \<open>series_to_json_obj\<close> returns.
\<close>

lemma write_lines_eq:
  "write_lines repr time_series f =
     Inr (f @ concat (map (\<lambda>ts. ''null'' @ [CHR 0x0A]) time_series))"
proof (induction time_series arbitrary: f)
  case Nil
  show ?case by simp
next
  case (Cons ts time_series)
  show ?case
    using null_line [of repr]
    by (simp add: series_to_json_obj_def Cons.IH del: dumps.simps)
qed

text \<open>
  Claim C7 says that every line of the file is a record with \<^verbatim>\<open>start\<close> and \<^verbatim>\<open>target\<close>. For
  two series the file holds the line \<^verbatim>\<open>null\<close> twice.
\<close>

theorem write_json_dataset_null_lines:
  "write_json_dataset repr
     [[(732677, Some (254 / 100 :: rat))], [(733042, Some (63 / 10))]] ''train.json''
     \<lparr>files = Map.empty, stdout = []\<rparr> =
   Inr \<lparr>files = [''train.json'' \<mapsto> ''null'' @ [CHR 0x0A] @ ''null'' @ [CHR 0x0A]],
        stdout = [''train.json saved.'']\<rparr>"
  by (simp add: write_json_dataset_def write_lines_eq)

subsection \<open>\<^verbatim>\<open>json_predictor_input\<close>\<close>

text \<open>
  The loop collects one instance for each input series, in the order of the list; the
  instance is what \<open>series_to_json_obj\<close> returns.
\<close>

lemma instances_loop_eq:
  "instances_loop input_ts instances = Inr (instances @ map (\<lambda>ts. JNull) input_ts)"
  by (induction input_ts arbitrary: instances) (simp_all add: series_to_json_obj_def)

text \<open>
  Claim C8 says that every instance of the request is a record with \<^verbatim>\<open>start\<close> and
  \<^verbatim>\<open>target\<close>. For two series, 50 samples and the three default quantiles, the instances of
  the request are \<^verbatim>\<open>null\<close> and \<^verbatim>\<open>null\<close>; the configuration is as the claim has it.
\<close>

theorem json_predictor_input_null_instances:
  \<open>json_predictor_input repr
     [[(732677, Some (254 / 100 :: rat))], [(733042, Some (63 / 10))]] 50 [''0.1'', ''0.5'', ''0.9''] =
   Inr ''{"instances": [null, null], "configuration": {"num_samples": 50, "output_types": ["quantiles"], "quantiles": ["0.1", "0.5", "0.9"]}}''\<close>
  by (simp add: json_predictor_input_def instances_loop_eq request_data_def encode_utf8_def
      utf8_char_def encode_str_def escape_char_def show_int_def show_nat.simps digit_char_def)

subsection \<open>\<^verbatim>\<open>decode_prediction\<close>\<close>

lemma column_lists_wellformed:
  assumes "list_all (\<lambda>kv. case snd kv of JList xs \<Rightarrow> length xs = n | _ \<Rightarrow> False) kvs"
  shows "\<exists>cols. column_lists kvs = Some cols \<and> map fst cols = map fst kvs \<and>
           list_all (\<lambda>c. length (snd c) = n) cols \<and>
           map (\<lambda>c. (fst c, JList (snd c))) cols = kvs"
  using assms
proof (induction kvs)
  case Nil
  show ?case by simp
next
  case (Cons kv kvs)
  obtain k v where kv: "kv = (k, v)" by (cases kv)
  from Cons.prems kv obtain xs where v: "v = JList xs" and xs: "length xs = n"
    by (cases v) simp_all
  from Cons.prems have "list_all (\<lambda>kv. case snd kv of JList xs \<Rightarrow> length xs = n | _ \<Rightarrow> False) kvs"
    by simp
  from Cons.IH [OF this] obtain cols where
    "column_lists kvs = Some cols" "map fst cols = map fst kvs"
    "list_all (\<lambda>c. length (snd c) = n) cols" "map (\<lambda>c. (fst c, JList (snd c))) cols = kvs"
    by blast
  then show ?case
    using kv v xs by (intro exI [of _ "(k, xs) # cols"]) simp
qed

lemma DataFrame_wellformed:
  assumes "wellformed_quantiles quantiles n q" and "quantiles \<noteq> []"
  shows "\<exists>t. DataFrame q = Inr t \<and> df_nrows t = n \<and>
           distinct (map fst (df_columns t)) \<and> set (map fst (df_columns t)) = set quantiles \<and>
           list_all (\<lambda>c. length (snd c) = n) (df_columns t) \<and>
           q = JDict (map (\<lambda>c. (fst c, JList (snd c))) (df_columns t))"
proof -
  from assms(1) obtain kvs where q: "q = JDict kvs"
    and d: "distinct (map fst kvs)" and s: "set (map fst kvs) = set quantiles"
    and l: "list_all (\<lambda>kv. case snd kv of JList xs \<Rightarrow> length xs = n | _ \<Rightarrow> False) kvs"
    by (cases q) (simp_all add: wellformed_quantiles_def)
  from column_lists_wellformed [OF l] obtain cols where
    c: "column_lists kvs = Some cols" and f: "map fst cols = map fst kvs"
    and n: "list_all (\<lambda>c. length (snd c) = n) cols"
    and wrap: "map (\<lambda>c. (fst c, JList (snd c))) cols = kvs"
    by blast
  from assms(2) s f have "cols \<noteq> []" by auto
  then obtain k xs rest where cols: "cols = (k, xs) # rest" by (cases cols) auto
  from n cols have xs: "length xs = n" and rest: "list_all (\<lambda>c. length (snd c) = length xs) rest"
    by simp_all
  have "DataFrame q = Inr \<lparr>df_columns = cols, df_nrows = n\<rparr>"
    using q c cols xs rest by (simp add: DataFrame_def)
  then show ?thesis
    using d s f n wrap q by (intro exI [of _ "\<lparr>df_columns = cols, df_nrows = n\<rparr>"]) simp
qed

lemma decode_loop_wellformed:
  assumes "\<forall>p\<in>set ps. \<exists>q. subscript p ''quantiles'' = Inr q \<and> wellformed_quantiles quantiles n q"
      and "quantiles \<noteq> []"
  shows "\<exists>ts. decode_loop ps acc = Inr (acc @ ts) \<and> list_all2 (table_for quantiles n) ps ts"
  using assms(1)
proof (induction ps arbitrary: acc)
  case Nil
  show ?case by simp
next
  case (Cons p ps)
  from Cons.prems obtain q where q: "subscript p ''quantiles'' = Inr q"
    and w: "wellformed_quantiles quantiles n q" by auto
  from DataFrame_wellformed [OF w assms(2)] obtain t where
    t: "DataFrame q = Inr t" and tf: "table_for quantiles n p t"
    unfolding table_for_def q by auto
  from Cons.prems have "\<forall>p\<in>set ps. \<exists>q. subscript p ''quantiles'' = Inr q \<and> wellformed_quantiles quantiles n q"
    by simp
  from Cons.IH [OF this, of "acc @ [t]"] obtain ts where
    "decode_loop ps (acc @ [t]) = Inr (acc @ [t] @ ts)" "list_all2 (table_for quantiles n) ps ts"
    by auto
  then show ?case
    using q t tf by (intro exI [of _ "t # ts"]) simp
qed

text \<open>
  Claim C9. Let the response parse to a dictionary whose \<^verbatim>\<open>predictions\<close> are a list, and let
  the \<^verbatim>\<open>quantiles\<close> of every prediction be well formed for the requested labels, of which
  there is at least one, and for the prediction length. Then \<open>decode_prediction\<close> returns
  one table per prediction, in the order of the predictions, and table \<open>k\<close> is the table
  for prediction \<open>k\<close>: it has \<open>prediction_length\<close> rows and one column for each requested
  label, and its columns hold the values of the response in their order.
\<close>

theorem decode_prediction_tables:
  assumes "loads prediction = Inr prediction_data"
      and "subscript prediction_data ''predictions'' = Inr (JList predictions)"
      and "\<forall>p\<in>set predictions.
             \<exists>q. subscript p ''quantiles'' = Inr q \<and>
                 wellformed_quantiles quantiles prediction_length q"
      and "quantiles \<noteq> []"
  shows "\<exists>prediction_list.
           decode_prediction loads prediction = Inr prediction_list \<and>
           length prediction_list = length predictions \<and>
           (\<forall>k<length predictions.
              table_for quantiles prediction_length (predictions ! k) (prediction_list ! k))"
proof -
  from decode_loop_wellformed [OF assms(3,4), of "[]"] obtain ts where
    run: "decode_loop predictions [] = Inr ts"
    and tabs: "list_all2 (table_for quantiles prediction_length) predictions ts"
    by auto
  have "decode_prediction loads prediction = Inr ts"
    using assms(1,2) run by (simp add: decode_prediction_def predictions_list_def)
  moreover have "length ts = length predictions"
    using tabs by (simp add: list_all2_lengthD)
  moreover have "table_for quantiles prediction_length (predictions ! k) (ts ! k)"
    if "k < length predictions" for k
    using tabs that by (rule list_all2_nthD)
  ultimately show ?thesis by blast
qed

theorem decode_prediction_tables_witness:
  "\<exists>prediction_list.
     decode_prediction
       (\<lambda>s. Inr (JDict [(''predictions'',
          JList [JDict [(''quantiles'',
            JDict [(''0.1'', JList [JFloat (1::rat), JFloat 2]),
                   (''0.9'', JList [JFloat 3, JFloat 4])])]])])) ''response'' =
       Inr prediction_list \<and>
     length prediction_list = 1 \<and>
     df_nrows (prediction_list ! 0) = 2 \<and>
     set (map fst (df_columns (prediction_list ! 0))) = {''0.1'', ''0.9''}"
proof -
  let ?q = "JDict [(''0.1'', JList [JFloat (1::rat), JFloat 2]), (''0.9'', JList [JFloat 3, JFloat 4])]"
  let ?p = "JDict [(''quantiles'', ?q)]"
  let ?d = "JDict [(''predictions'', JList [?p])]"
  let ?loads = "\<lambda>s::string. (Inr ?d :: error + rat json)"
  have a1: "?loads ''response'' = Inr ?d" by simp
  have a2: "subscript ?d ''predictions'' = Inr (JList [?p])" by (simp add: subscript_def)
  have a3: "\<forall>p\<in>set [?p]. \<exists>q. subscript p ''quantiles'' = Inr q \<and>
              wellformed_quantiles [''0.1'', ''0.9''] 2 q"
    by (simp add: subscript_def wellformed_quantiles_def)
  have a4: "[''0.1'', ''0.9''] \<noteq> []" by simp
  from decode_prediction_tables [of ?loads "''response''", OF a1 a2 a3 a4]
  show ?thesis by (auto simp: table_for_def)
qed

subsection \<open>Daily resampling\<close>












end
